theory Spec2Isabelle
  imports
    Complex_Main
    "HOL-Library.Multiset"
    "HOL-Library.Char_ord"
    "HOL-Library.List_Lexorder"
    "HOL-Library.Product_Lexorder"
begin

section \<open>Values shared by the two scripts\<close>

text \<open>
  The repository consists of two Python scripts. \<^verbatim>\<open>generate-visual-embeddings.py\<close>
  builds the embeddings database as nested dictionaries and dumps it as JSON;
  \<^verbatim>\<open>visual-search.py\<close> loads that JSON document and ranks its pages against a query
  embedding. Python values read back by \<^verbatim>\<open>json.load\<close> are modelled by the datatype
  \<open>json\<close>; a dictionary is an association list with distinct keys, read with
  \<open>map_of\<close>.

  Floating point numbers are idealised: a finite float is a real number (rounding,
  overflow and underflow are not modelled), and the IEEE special values that a numpy
  division can produce are separate constructors of \<open>fl\<close>.
\<close>

datatype json =
    JNull
  | JBool bool
  | JInt int
  | JReal real
  | JStr string
  | JArr "json list"
  | JObj "(string \<times> json) list"

datatype fl = Fin real | PInf | NInf | NaN

text \<open>
  Exceptions that the modelled code can raise. \<open>ShapeError\<close> is numpy's
  \<^verbatim>\<open>ValueError: shapes (n,) and (m,) not aligned\<close>. \<open>External\<close> stands for a failure
  inside a library call whose cause is outside the scripts (PDF rasterisation, image
  decoding, the CLIP model, the file system). \<open>Unmodelled\<close> marks the one place where
  the model stops: \<^verbatim>\<open>np.array\<close> applied to a JSON value that is not a flat list of
  numbers (numpy then builds object arrays, matrices or scalars, none of which are
  described here). No theorem below draws a conclusion from \<open>Unmodelled\<close>.
\<close>

datatype exn =
    KeyError string
  | TypeError
  | ShapeError
  | JSONDecodeError
  | External string
  | Unmodelled

definition bind_exn :: "exn + 'a \<Rightarrow> ('a \<Rightarrow> exn + 'b) \<Rightarrow> exn + 'b" where
  "bind_exn r f = (case r of Inl e \<Rightarrow> Inl e | Inr v \<Rightarrow> f v)"

section \<open>visual-search.py\<close>

subsection \<open>Cosine similarity (lines 16--21)\<close>

text \<open>
  \<^verbatim>\<open>np.dot\<close> of two one-dimensional arrays raises when their lengths differ and is the
  inner product otherwise; \<^verbatim>\<open>np.linalg.norm\<close> is the Euclidean norm. Dividing numpy
  floats by zero does not raise: it yields \<open>nan\<close> for \<open>0/0\<close> and a signed infinity
  otherwise (with a warning on stderr).

  The three functions compute over the reals. They agree with numpy wherever the
  floating point operations involved are exact, as they are for products, sums and
  square roots of zeros; elsewhere numpy rounds, and a norm can underflow to zero or
  overflow to infinity, which the functions below do not show. Statements about
  \<open>cosine_similarity\<close> are therefore made only for what does not depend on rounding:
  whether it raises, and its value at a zero vector.
\<close>

definition np_dot :: "real list \<Rightarrow> real list \<Rightarrow> exn + real" where
  "np_dot a b =
     (if length a \<noteq> length b then Inl ShapeError
      else Inr (sum_list (map (\<lambda>(x, y). x * y) (zip a b))))"

definition np_norm :: "real list \<Rightarrow> real" where
  "np_norm a = sqrt (sum_list (map (\<lambda>x. x * x) a))"

definition np_div :: "real \<Rightarrow> real \<Rightarrow> fl" where
  "np_div x y =
     (if y = 0 then (if x = 0 then NaN else if 0 < x then PInf else NInf)
      else Fin (x / y))"

definition cosine_similarity :: "real list \<Rightarrow> real list \<Rightarrow> exn + fl" where
  "cosine_similarity a b =
     bind_exn (np_dot a b) (\<lambda>d. Inr (np_div d (np_norm a * np_norm b)))"

subsection \<open>Reading the parsed database\<close>

text \<open>\<open>subscript v k\<close> is the Python expression \<^verbatim>\<open>v['k']\<close> with a string key.\<close>

fun subscript :: "json \<Rightarrow> string \<Rightarrow> exn + json" where
  "subscript (JObj kvs) k = (case map_of kvs k of None \<Rightarrow> Inl (KeyError k) | Some v \<Rightarrow> Inr v)"
| "subscript _ k = Inl TypeError"

text \<open>\<open>iterate v\<close> is the sequence a \<^verbatim>\<open>for\<close> loop over \<open>v\<close> runs through.\<close>

fun iterate :: "json \<Rightarrow> exn + json list" where
  "iterate (JArr xs) = Inr xs"
| "iterate (JObj kvs) = Inr (map (\<lambda>kv. JStr (fst kv)) kvs)"
| "iterate (JStr s) = Inr (map (\<lambda>c. JStr [c]) s)"
| "iterate _ = Inl TypeError"

text \<open>
  The elements \<^verbatim>\<open>np.array\<close> turns into numbers of a float or 64-bit integer array: JSON
  floats, and JSON integers in the range of a signed 64-bit integer (larger ones make
  numpy build an array of Python objects).
\<close>

fun as_number :: "json \<Rightarrow> real option" where
  "as_number (JInt i) =
     (if - (2 ^ 63) \<le> i \<and> i < 2 ^ 63 then Some (of_int i) else None)"
| "as_number (JReal r) = Some r"
| "as_number _ = None"

text \<open>\<^verbatim>\<open>np.array(b)\<close> for the embedding read from the database.\<close>

fun np_array :: "json \<Rightarrow> exn + real list" where
  "np_array (JArr xs) =
     (if list_all (\<lambda>x. as_number x \<noteq> None) xs then Inr (map (\<lambda>x. the (as_number x)) xs)
      else Inl Unmodelled)"
| "np_array _ = Inl Unmodelled"

text \<open>One entry of \<^verbatim>\<open>results\<close> (lines 83--89); the field names carry the prefix \<open>r_\<close>.\<close>

record result =
  r_catalog :: json
  r_page_number :: json
  r_image_path :: json
  similarity :: fl
  r_source_file :: json

text \<open>The inner loop (lines 81--89), with \<^verbatim>\<open>results\<close> passed through.\<close>

fun scan_pages :: "real list \<Rightarrow> json \<Rightarrow> json \<Rightarrow> json list \<Rightarrow> result list \<Rightarrow> exn + result list" where
  "scan_pages q catalog catalog_name [] results = Inr results"
| "scan_pages q catalog catalog_name (page # rest) results =
     bind_exn (subscript page ''embedding'') (\<lambda>emb.
     bind_exn (np_array emb) (\<lambda>v.
     bind_exn (cosine_similarity q v) (\<lambda>sim.
     bind_exn (subscript page ''page_number'') (\<lambda>pn.
     bind_exn (subscript page ''image_path'') (\<lambda>ip.
     bind_exn (subscript catalog ''source_file'') (\<lambda>sf.
       scan_pages q catalog catalog_name rest
         (results @ [\<lparr>r_catalog = catalog_name, r_page_number = pn, r_image_path = ip,
                      similarity = sim, r_source_file = sf\<rparr>])))))))"

text \<open>The outer loop (lines 79--81).\<close>

fun scan_catalogs :: "real list \<Rightarrow> json list \<Rightarrow> result list \<Rightarrow> exn + result list" where
  "scan_catalogs q [] results = Inr results"
| "scan_catalogs q (catalog # rest) results =
     bind_exn (subscript catalog ''name'') (\<lambda>catalog_name.
     bind_exn (subscript catalog ''pages'') (\<lambda>pages.
     bind_exn (iterate pages) (\<lambda>page_list.
     bind_exn (scan_pages q catalog catalog_name page_list results) (\<lambda>results'.
       scan_catalogs q rest results'))))"

text \<open>Lines 78--89: \<^verbatim>\<open>results = []\<close> and the two loops over \<^verbatim>\<open>db['catalogs']\<close>.\<close>

definition calculate_similarities :: "real list \<Rightarrow> json \<Rightarrow> exn + result list" where
  "calculate_similarities q db =
     bind_exn (subscript db ''catalogs'') (\<lambda>cats.
     bind_exn (iterate cats) (\<lambda>catalog_list.
       scan_catalogs q catalog_list []))"

subsection \<open>Sorting and truncation (lines 91--95)\<close>

fun fl_less :: "fl \<Rightarrow> fl \<Rightarrow> bool" where
  "fl_less NaN _ = False"
| "fl_less _ NaN = False"
| "fl_less (Fin x) (Fin y) = (x < y)"
| "fl_less (Fin x) PInf = True"
| "fl_less NInf (Fin y) = True"
| "fl_less NInf PInf = True"
| "fl_less _ _ = False"

text \<open>
  \<^verbatim>\<open>results.sort(key=..., reverse=True)\<close>. Python specifies \<^verbatim>\<open>list.sort\<close> as a
  stable sort that compares keys with \<open><\<close> only, and \<^verbatim>\<open>reverse=True\<close> as sorting as if
  each comparison were reversed. Whenever \<open><\<close> orders the keys that occur totally,
  every such algorithm returns the same list, and that list is what the stable
  insertion sort below computes. With \<open>nan\<close> among the keys the result of Python's sort
  depends on which comparisons the implementation makes; the model is then only relied
  on for two-element lists, where every comparison involving \<open>nan\<close> answers \<open>False\<close>
  and stability leaves the list as it is.
\<close>

fun insert_desc :: "('a \<Rightarrow> fl) \<Rightarrow> 'a \<Rightarrow> 'a list \<Rightarrow> 'a list" where
  "insert_desc key x [] = [x]"
| "insert_desc key x (y # ys) =
     (if fl_less (key y) (key x) then x # y # ys else y # insert_desc key x ys)"

definition sort_reverse :: "('a \<Rightarrow> fl) \<Rightarrow> 'a list \<Rightarrow> 'a list" where
  "sort_reverse key xs = foldl (\<lambda>acc x. insert_desc key x acc) [] xs"

text \<open>\<^verbatim>\<open>xs[:k]\<close>: a negative \<open>k\<close> counts from the end.\<close>

definition slice_to :: "'a list \<Rightarrow> int \<Rightarrow> 'a list" where
  "slice_to xs k = (if 0 \<le> k then take (nat k) xs else take (nat (int (length xs) + k)) xs)"

subsection \<open>The search run (lines 53--108)\<close>

text \<open>
  What is at \<^verbatim>\<open>EMBEDDINGS_FILE\<close>: nothing, a file that \<^verbatim>\<open>json.load\<close> rejects, or a
  file that parses to a JSON value.
\<close>

datatype artifact = Absent | Unparsable | Parsed json

text \<open>
  The two ways the run ends with an \<^verbatim>\<open>{"error": ...}\<close> document and exit status 1:
  the fixed message of line 57, or the handler of line 106 with the text of the
  exception it caught.
\<close>

datatype search_error = NotFound | Caught exn

record search_output =
  success :: bool
  query_type :: string
  total_pages_searched :: nat
  results :: "result list"

text \<open>
  \<open>main_search\<close> is \<^verbatim>\<open>main\<close> from line 53 on, the command line already parsed into
  \<open>top_k\<close>. Lines 61--71 (decoding the query image and embedding it with the CLIP
  model) are external: \<open>query\<close> is their outcome, an exception or the query embedding.
\<close>

definition main_search :: "artifact \<Rightarrow> exn + real list \<Rightarrow> int \<Rightarrow> search_error + search_output" where
  "main_search file query top_k =
     (case file of
        Absent \<Rightarrow> Inl NotFound
      | _ \<Rightarrow>
        (case query of
           Inl e \<Rightarrow> Inl (Caught e)
         | Inr query_embedding \<Rightarrow>
           (case file of
              Parsed db \<Rightarrow>
                (case calculate_similarities query_embedding db of
                   Inl e \<Rightarrow> Inl (Caught e)
                 | Inr rs \<Rightarrow>
                     Inr \<lparr>success = True, query_type = ''image'',
                          total_pages_searched = length rs,
                          results = slice_to (sort_reverse similarity rs) top_k\<rparr>)
            | _ \<Rightarrow> Inl (Caught JSONDecodeError))))"

section \<open>generate-visual-embeddings.py\<close>

subsection \<open>The database as the generator builds it\<close>

record page =
  page_number :: nat
  image_path :: string
  embedding :: "real list"

record catalog =
  name :: string
  source_file :: string
  pages :: "page list"

record database =
  version :: string
  model :: string
  created :: string
  catalogs :: "catalog list"

text \<open>
  The JSON value that \<^verbatim>\<open>json.dump\<close> writes for these dictionaries and that
  \<^verbatim>\<open>json.load\<close> gives back to the search script.
\<close>

definition json_of_page :: "page \<Rightarrow> json" where
  "json_of_page p =
     JObj [(''page_number'', JInt (int (page_number p))),
           (''image_path'', JStr (image_path p)),
           (''embedding'', JArr (map JReal (embedding p)))]"

definition json_of_catalog :: "catalog \<Rightarrow> json" where
  "json_of_catalog c =
     JObj [(''name'', JStr (name c)),
           (''source_file'', JStr (source_file c)),
           (''pages'', JArr (map json_of_page (pages c)))]"

definition json_of_database :: "database \<Rightarrow> json" where
  "json_of_database db =
     JObj [(''version'', JStr (version db)),
           (''model'', JStr (model db)),
           (''created'', JStr (created db)),
           (''catalogs'', JArr (map json_of_catalog (catalogs db)))]"

text \<open>Line 129: \<^verbatim>\<open>sum(len(c["pages"]) for c in all_embeddings["catalogs"])\<close>.\<close>

definition total_pages :: "database \<Rightarrow> nat" where
  "total_pages db = sum_list (map (\<lambda>c. length (pages c)) (catalogs db))"

subsection \<open>Names and paths (lines 36--38, 70--76, 94--95)\<close>

definition KNOWLEDGE_BASE :: string where
  "KNOWLEDGE_BASE = ''/opt/flow-builder/data/knowledge-base''"

definition OUTPUT_DIR :: string where
  "OUTPUT_DIR = ''/opt/flow-builder/data/catalog-images''"

definition EMBEDDINGS_FILE :: string where
  "EMBEDDINGS_FILE = ''/opt/flow-builder/data/visual-embeddings-db.json''"

text \<open>\<^verbatim>\<open>os.path.basename\<close>: what follows the last slash.\<close>

definition basename :: "string \<Rightarrow> string" where
  "basename p = rev (takeWhile (\<lambda>c. c \<noteq> CHR ''/'') (rev p))"

text \<open>\<^verbatim>\<open>os.path.join\<close> of two components on POSIX.\<close>

definition path_join :: "string \<Rightarrow> string \<Rightarrow> string" where
  "path_join a b =
     (if b \<noteq> [] \<and> hd b = CHR ''/'' then b
      else if a = [] \<or> last a = CHR ''/'' then a @ b
      else a @ ''/'' @ b)"

text \<open>\<^verbatim>\<open>s.replace(".pdf", "")\<close>: every occurrence, left to right.\<close>

fun remove_pdf :: "string \<Rightarrow> string" where
  "remove_pdf [] = []"
| "remove_pdf (c # cs) =
     (if take 4 (c # cs) = ''.pdf'' then remove_pdf (drop 3 cs) else c # remove_pdf cs)"

text \<open>\<^verbatim>\<open>s.split("-", 1)[1]\<close> for a string that contains a dash.\<close>

definition after_first_dash :: "string \<Rightarrow> string" where
  "after_first_dash s = tl (dropWhile (\<lambda>c. c \<noteq> CHR ''-'') s)"

definition catalog_name_of :: "string \<Rightarrow> string" where
  "catalog_name_of pdf_name =
     (if CHR ''-'' \<in> set pdf_name then remove_pdf (after_first_dash pdf_name)
      else remove_pdf pdf_name)"

definition digit_char :: "nat \<Rightarrow> char" where
  "digit_char d = char_of (48 + d)"

function decimal :: "nat \<Rightarrow> string" where
  "decimal n = (if n < 10 then [digit_char n] else decimal (n div 10) @ [digit_char (n mod 10)])"
  by pat_completeness auto
termination
  by (relation "measure id") auto

declare decimal.simps [simp del]

text \<open>\<^verbatim>\<open>f"page_{page_num:03d}.jpg"\<close> for a page number, which is never negative.\<close>

definition image_filename :: "nat \<Rightarrow> string" where
  "image_filename page_num =
     ''page_'' @ replicate (3 - length (decimal page_num)) CHR ''0'' @ decimal page_num @ ''.jpg''"

subsection \<open>The ingestion loop (lines 62--120)\<close>

text \<open>
  The library calls of the loop are parameters: rasterising a PDF, downscaling an
  image, writing an image file, embedding an image, creating a directory. Each of the
  fallible ones yields an exception or its result.
\<close>

record 'img env =
  convert_from_path :: "string \<Rightarrow> exn + 'img list"
  thumbnail :: "'img \<Rightarrow> 'img"
  save_image :: "'img \<Rightarrow> string \<Rightarrow> exn option"
  encode :: "'img \<Rightarrow> exn + real list"
  makedirs :: "string \<Rightarrow> exn option"

text \<open>
  Lines 92--110: \<^verbatim>\<open>for page_num, page_image in enumerate(pages, 1)\<close>, with the list
  \<^verbatim>\<open>catalog_data["pages"]\<close> passed through.
\<close>

fun process_pages ::
  "'img env \<Rightarrow> string \<Rightarrow> nat \<Rightarrow> 'img list \<Rightarrow> page list \<Rightarrow> exn + page list" where
  "process_pages E catalog_dir page_num [] acc = Inr acc"
| "process_pages E catalog_dir page_num (page_image # rest) acc =
     (let path = path_join catalog_dir (image_filename page_num);
          small = thumbnail E page_image
      in case save_image E small path of
           Some e \<Rightarrow> Inl e
         | None \<Rightarrow>
             bind_exn (encode E small) (\<lambda>emb.
               process_pages E catalog_dir (Suc page_num) rest
                 (acc @ [\<lparr>page_number = page_num, image_path = path, embedding = emb\<rparr>])))"

text \<open>The body of the \<^verbatim>\<open>try\<close> block (lines 85--114) for one PDF.\<close>

definition process_document :: "'img env \<Rightarrow> string \<Rightarrow> exn + catalog" where
  "process_document E pdf_path =
     (let pdf_name = basename pdf_path;
          catalog_dir = path_join OUTPUT_DIR (remove_pdf pdf_name)
      in bind_exn (convert_from_path E pdf_path) (\<lambda>imgs.
         bind_exn (process_pages E catalog_dir 1 imgs []) (\<lambda>ps.
           Inr \<lparr>name = catalog_name_of pdf_name, source_file = pdf_name, pages = ps\<rparr>)))"

text \<open>
  Lines 69--120. An exception inside the \<^verbatim>\<open>try\<close> block is printed and the loop goes on
  with the next file (\<^verbatim>\<open>continue\<close>); otherwise the catalog is appended. The directory
  is created before the \<^verbatim>\<open>try\<close>, so a failure there ends the whole run.
\<close>

fun ingest :: "'img env \<Rightarrow> database \<Rightarrow> string list \<Rightarrow> exn + database" where
  "ingest E db [] = Inr db"
| "ingest E db (pdf_path # rest) =
     (case makedirs E (path_join OUTPUT_DIR (remove_pdf (basename pdf_path))) of
        Some e \<Rightarrow> Inl e
      | None \<Rightarrow>
          (case process_document E pdf_path of
             Inl e \<Rightarrow> ingest E db rest
           | Inr c \<Rightarrow> ingest E (db\<lparr>catalogs := catalogs db @ [c]\<rparr>) rest))"

text \<open>Lines 62--67 and the loop: the database starts empty on every run.\<close>

definition generate :: "'img env \<Rightarrow> string \<Rightarrow> string list \<Rightarrow> exn + database" where
  "generate E now pdf_files =
     ingest E \<lparr>version = ''1.0'', model = ''clip-ViT-B-32'', created = now, catalogs = []\<rparr>
       pdf_files"

subsection \<open>Saving (lines 125--126)\<close>

text \<open>
  The file system maps a path to the content stored there. \<^verbatim>\<open>open(path, 'w')\<close>
  creates or truncates the file; \<^verbatim>\<open>json.dump\<close> then writes the serialisation to it
  piece by piece. \<open>save_steps n\<close> is the file system after the first \<open>n\<close> of these
  steps, which is what remains when the process is stopped at that point.
\<close>

type_synonym fs = "string \<Rightarrow> string option"

definition open_w :: "fs \<Rightarrow> string \<Rightarrow> fs" where
  "open_w files path = files(path \<mapsto> [])"

definition write_chunk :: "fs \<Rightarrow> string \<Rightarrow> string \<Rightarrow> fs" where
  "write_chunk files path chunk =
     files(path \<mapsto> (case files path of None \<Rightarrow> chunk | Some old \<Rightarrow> old @ chunk))"

fun dump_steps :: "nat \<Rightarrow> fs \<Rightarrow> string \<Rightarrow> string list \<Rightarrow> fs" where
  "dump_steps 0 files path chunks = files"
| "dump_steps (Suc n) files path [] = files"
| "dump_steps (Suc n) files path (chunk # rest) =
     dump_steps n (write_chunk files path chunk) path rest"

definition save_steps :: "nat \<Rightarrow> fs \<Rightarrow> string \<Rightarrow> string list \<Rightarrow> fs" where
  "save_steps n files path chunks =
     (case n of 0 \<Rightarrow> files | Suc m \<Rightarrow> dump_steps m (open_w files path) path chunks)"

text \<open>The complete save: the \<^verbatim>\<open>open\<close> and every write.\<close>

definition save :: "fs \<Rightarrow> string \<Rightarrow> string list \<Rightarrow> fs" where
  "save files path chunks = save_steps (Suc (length chunks)) files path chunks"

section \<open>Sample inputs\<close>

text \<open>Small databases at which the theorems below are evaluated.\<close>

definition db_spring :: database where
  "db_spring =
     \<lparr>version = ''1.0'', model = ''clip-ViT-B-32'', created = ''2024-03-01T00:00:00'',
      catalogs =
        [\<lparr>name = ''Spring2024'', source_file = ''1-Spring2024.pdf'',
          pages = [\<lparr>page_number = 1, image_path = ''p1.jpg'', embedding = [1, 0, 0]\<rparr>,
                   \<lparr>page_number = 2, image_path = ''p2.jpg'', embedding = [0, 1, 0]\<rparr>,
                   \<lparr>page_number = 3, image_path = ''p3.jpg'', embedding = [0, 0, 1]\<rparr>]\<rparr>]\<rparr>"

definition spring_results :: "result list" where
  "spring_results =
     [\<lparr>r_catalog = JStr ''Spring2024'', r_page_number = JInt 1, r_image_path = JStr ''p1.jpg'',
        similarity = Fin 1, r_source_file = JStr ''1-Spring2024.pdf''\<rparr>,
      \<lparr>r_catalog = JStr ''Spring2024'', r_page_number = JInt 2, r_image_path = JStr ''p2.jpg'',
        similarity = Fin 0, r_source_file = JStr ''1-Spring2024.pdf''\<rparr>,
      \<lparr>r_catalog = JStr ''Spring2024'', r_page_number = JInt 3, r_image_path = JStr ''p3.jpg'',
        similarity = Fin 0, r_source_file = JStr ''1-Spring2024.pdf''\<rparr>]"

definition db_ties :: database where
  "db_ties =
     \<lparr>version = ''1.0'', model = ''clip-ViT-B-32'', created = ''2024-03-01T00:00:00'',
      catalogs =
        [\<lparr>name = ''B'', source_file = ''1-B.pdf'',
          pages = [\<lparr>page_number = 1, image_path = ''b1.jpg'', embedding = [1, 0]\<rparr>]\<rparr>,
         \<lparr>name = ''A'', source_file = ''2-A.pdf'',
          pages = [\<lparr>page_number = 1, image_path = ''a1.jpg'', embedding = [1, 0]\<rparr>]\<rparr>]\<rparr>"

definition db_zero_first :: database where
  "db_zero_first =
     \<lparr>version = ''1.0'', model = ''clip-ViT-B-32'', created = ''2024-03-01T00:00:00'',
      catalogs =
        [\<lparr>name = ''A'', source_file = ''1-A.pdf'',
          pages = [\<lparr>page_number = 1, image_path = ''a1.jpg'', embedding = [0, 0]\<rparr>,
                   \<lparr>page_number = 2, image_path = ''a2.jpg'', embedding = [1, 0]\<rparr>]\<rparr>]\<rparr>"

definition db_mixed :: database where
  "db_mixed =
     \<lparr>version = ''1.0'', model = ''clip-ViT-B-32'', created = ''2024-03-01T00:00:00'',
      catalogs =
        [\<lparr>name = ''A'', source_file = ''1-A.pdf'',
          pages = [\<lparr>page_number = 1, image_path = ''a1.jpg'', embedding = [1, 0]\<rparr>,
                   \<lparr>page_number = 2, image_path = ''a2.jpg'', embedding = [1, 0, 0]\<rparr>]\<rparr>]\<rparr>"

text \<open>
  A stub for the library calls of the generator. Images are numbers; every PDF has the two
  pages \<open>0\<close> and \<open>1\<close>, except one that cannot be rasterised and one whose second page
  cannot be embedded.
\<close>

definition demo_env :: "nat env" where
  "demo_env =
     \<lparr>convert_from_path =
        (\<lambda>p. if p = ''/kb/3-broken.pdf'' then Inl (External ''rasterize'')
             else if p = ''/kb/4-badpage.pdf'' then Inr [0, 7]
             else Inr [0, 1]),
      thumbnail = (\<lambda>img. img),
      save_image = (\<lambda>img path. None),
      encode = (\<lambda>img. if img = 7 then Inl (External ''encode'') else Inr [1, real img]),
      makedirs = (\<lambda>dir. None)\<rparr>"

definition demo_catalog :: "string \<Rightarrow> string \<Rightarrow> string \<Rightarrow> catalog" where
  "demo_catalog n src dir =
     \<lparr>name = n, source_file = src,
      pages = [\<lparr>page_number = 1, image_path = dir @ ''/page_001.jpg'', embedding = [1, 0]\<rparr>,
               \<lparr>page_number = 2, image_path = dir @ ''/page_002.jpg'', embedding = [1, 1]\<rparr>]\<rparr>"

definition demo_files :: "string list" where
  "demo_files = [''/kb/1-foo.pdf'', ''/kb/3-broken.pdf'', ''/kb/4-badpage.pdf'', ''/kb/2-bar.pdf'']"

definition demo_database :: database where
  "demo_database =
     \<lparr>version = ''1.0'', model = ''clip-ViT-B-32'', created = ''t'',
      catalogs = [demo_catalog ''foo'' ''1-foo.pdf'' ''/opt/flow-builder/data/catalog-images/1-foo'',
                  demo_catalog ''bar'' ''2-bar.pdf'' ''/opt/flow-builder/data/catalog-images/2-bar'']\<rparr>"

section \<open>Auxiliary facts\<close>

subsection \<open>The order on scores and the sort\<close>

lemma fl_less_irrefl: "\<not> fl_less a a"
  by (cases a) simp_all

lemma fl_less_trans: "fl_less a b \<Longrightarrow> fl_less b c \<Longrightarrow> fl_less a c"
  by (cases a; cases b; cases c) simp_all

lemma fl_less_asym: "fl_less a b \<Longrightarrow> \<not> fl_less b a"
  by (cases a; cases b) simp_all

lemma fl_not_less_trans:
  "a \<noteq> NaN \<Longrightarrow> b \<noteq> NaN \<Longrightarrow> c \<noteq> NaN \<Longrightarrow> \<not> fl_less a b \<Longrightarrow> \<not> fl_less b c \<Longrightarrow> \<not> fl_less a c"
  by (cases a; cases b; cases c) simp_all

lemma fl_less_not_less_trans:
  "a \<noteq> NaN \<Longrightarrow> b \<noteq> NaN \<Longrightarrow> c \<noteq> NaN \<Longrightarrow> fl_less a b \<Longrightarrow> \<not> fl_less a c \<Longrightarrow> fl_less c b"
  by (cases a; cases b; cases c) simp_all

lemma fl_not_less_iff:
  "a \<noteq> NaN \<Longrightarrow> b \<noteq> NaN \<Longrightarrow> (\<not> fl_less a b) = (fl_less b a \<or> a = b)"
  by (cases a; cases b) auto

lemma sort_reverse_Nil: "sort_reverse key [] = []"
  by (simp add: sort_reverse_def)

lemma sort_reverse_snoc: "sort_reverse key (xs @ [x]) = insert_desc key x (sort_reverse key xs)"
  by (simp add: sort_reverse_def)

lemma mset_insert_desc: "mset (insert_desc key x ys) = add_mset x (mset ys)"
  by (induction ys) simp_all

lemma set_insert_desc: "set (insert_desc key x ys) = insert x (set ys)"
  by (induction ys) auto

lemma mset_sort_reverse: "mset (sort_reverse key xs) = mset xs"
  by (induction xs rule: rev_induct) (simp_all add: sort_reverse_Nil sort_reverse_snoc mset_insert_desc)

lemma set_sort_reverse: "set (sort_reverse key xs) = set xs"
  using mset_sort_reverse [of key xs] by (metis set_mset_mset)

lemma length_sort_reverse: "length (sort_reverse key xs) = length xs"
  using mset_sort_reverse [of key xs] by (metis size_mset)

lemma sorted_insert_desc:
  assumes "sorted_wrt (\<lambda>a b. \<not> fl_less (key a) (key b)) ys"
    and "key x \<noteq> NaN" and "\<forall>y\<in>set ys. key y \<noteq> NaN"
  shows "sorted_wrt (\<lambda>a b. \<not> fl_less (key a) (key b)) (insert_desc key x ys)"
  using assms
proof (induction ys)
  case Nil
  then show ?case by simp
next
  case (Cons y ys)
  show ?case
  proof (cases "fl_less (key y) (key x)")
    case True
    have "\<not> fl_less (key x) (key z)" if "z \<in> set (y # ys)" for z
    proof -
      have zy: "\<not> fl_less (key y) (key z)"
        using that Cons.prems(1) by (auto simp: fl_less_irrefl)
      have "fl_less (key z) (key x)"
        using fl_less_not_less_trans [of "key y" "key x" "key z"] True zy Cons.prems(2,3) that
        by auto
      then show ?thesis by (rule fl_less_asym)
    qed
    with True Cons.prems(1) show ?thesis by simp
  next
    case False
    with Cons show ?thesis by (auto simp: set_insert_desc)
  qed
qed

lemma sorted_sort_reverse:
  assumes "\<forall>x\<in>set xs. key x \<noteq> NaN"
  shows "sorted_wrt (\<lambda>a b. \<not> fl_less (key a) (key b)) (sort_reverse key xs)"
  using assms
proof (induction xs rule: rev_induct)
  case Nil
  then show ?case by (simp add: sort_reverse_Nil)
next
  case (snoc x xs)
  then show ?case
    by (simp add: sort_reverse_snoc sorted_insert_desc set_sort_reverse)
qed

lemma descending_sort_reverse:
  assumes "\<forall>x\<in>set xs. key x \<noteq> NaN"
  shows "sorted_wrt (\<lambda>a b. fl_less (key b) (key a) \<or> key a = key b) (sort_reverse key xs)"
proof -
  have "sorted_wrt (\<lambda>a b. \<not> fl_less (key a) (key b)) (sort_reverse key xs)"
    using assms by (rule sorted_sort_reverse)
  then show ?thesis
  proof (rule sorted_wrt_mono_rel [rotated])
    fix a b assume "a \<in> set (sort_reverse key xs)" "b \<in> set (sort_reverse key xs)"
      and "\<not> fl_less (key a) (key b)"
    with assms show "fl_less (key b) (key a) \<or> key a = key b"
      by (simp add: set_sort_reverse fl_not_less_iff)
  qed
qed

lemma filter_insert_desc:
  assumes "sorted_wrt (\<lambda>a b. \<not> fl_less (key a) (key b)) ys"
  shows "filter (\<lambda>z. key z = s) (insert_desc key x ys) =
         (if key x = s then filter (\<lambda>z. key z = s) ys @ [x] else filter (\<lambda>z. key z = s) ys)"
  using assms
proof (induction ys)
  case Nil
  then show ?case by simp
next
  case (Cons y ys)
  show ?case
  proof (cases "fl_less (key y) (key x)")
    case True
    have "key z \<noteq> key x" if "z \<in> set (y # ys)" for z
    proof
      assume eq: "key z = key x"
      have "\<not> fl_less (key y) (key z)"
        using that Cons.prems by (auto simp: fl_less_irrefl)
      with True eq show False by simp
    qed
    then have "key x = s \<Longrightarrow> filter (\<lambda>z. key z = s) (y # ys) = []"
      by (auto simp: filter_empty_conv)
    with True show ?thesis by auto
  next
    case False
    with Cons show ?thesis by auto
  qed
qed

lemma filter_sort_reverse:
  assumes "\<forall>x\<in>set xs. key x \<noteq> NaN"
  shows "filter (\<lambda>z. key z = s) (sort_reverse key xs) = filter (\<lambda>z. key z = s) xs"
  using assms
proof (induction xs rule: rev_induct)
  case Nil
  then show ?case by (simp add: sort_reverse_Nil)
next
  case (snoc x xs)
  then show ?case
    by (simp add: sort_reverse_snoc filter_insert_desc sorted_sort_reverse)
qed

subsection \<open>Scanning a database written by the generator\<close>

lemma np_array_reals: "np_array (JArr (map JReal v)) = Inr v"
  by (simp add: list_all_iff comp_def)

lemma cosine_similarity_mismatch:
  "length a \<noteq> length b \<Longrightarrow> cosine_similarity a b = Inl ShapeError"
  by (simp add: cosine_similarity_def np_dot_def bind_exn_def)

lemma cosine_similarity_match:
  "length a = length b \<Longrightarrow> \<exists>s. cosine_similarity a b = Inr s"
  by (simp add: cosine_similarity_def np_dot_def bind_exn_def)

lemma subscript_page:
  "subscript (json_of_page p) ''embedding'' = Inr (JArr (map JReal (embedding p)))"
  "subscript (json_of_page p) ''page_number'' = Inr (JInt (int (page_number p)))"
  "subscript (json_of_page p) ''image_path'' = Inr (JStr (image_path p))"
  by (simp_all add: json_of_page_def)

lemma subscript_catalog_source_file:
  "subscript (json_of_catalog c) ''source_file'' = Inr (JStr (source_file c))"
  by (simp add: json_of_catalog_def)

lemma scan_pages_ok:
  assumes "\<forall>p\<in>set ps. length (embedding p) = length q"
  shows "\<exists>rs. scan_pages q (json_of_catalog c) cn (map json_of_page ps) acc = Inr (acc @ rs)
              \<and> length rs = length ps"
  using assms
proof (induction ps arbitrary: acc)
  case Nil
  then show ?case by simp
next
  case (Cons p ps)
  from Cons.prems obtain s where s: "cosine_similarity q (embedding p) = Inr s"
    using cosine_similarity_match [of q "embedding p"] by auto
  let ?r = "\<lparr>r_catalog = cn, r_page_number = JInt (int (page_number p)),
             r_image_path = JStr (image_path p), similarity = s,
             r_source_file = JStr (source_file c)\<rparr>"
  from Cons.prems have "\<forall>p\<in>set ps. length (embedding p) = length q" by simp
  from Cons.IH [OF this, of "acc @ [?r]"] obtain rs where
    rs: "scan_pages q (json_of_catalog c) cn (map json_of_page ps) (acc @ [?r]) = Inr ((acc @ [?r]) @ rs)"
    and len: "length rs = length ps" by blast
  have "scan_pages q (json_of_catalog c) cn (map json_of_page (p # ps)) acc = Inr (acc @ (?r # rs))"
    using s rs
    by (simp add: subscript_page subscript_catalog_source_file np_array_reals bind_exn_def
          del: np_array.simps)
  with len show ?case by (intro exI [of _ "?r # rs"]) simp
qed

lemma scan_pages_mismatch:
  assumes "\<exists>p\<in>set ps. length (embedding p) \<noteq> length q"
  shows "scan_pages q (json_of_catalog c) cn (map json_of_page ps) acc = Inl ShapeError"
  using assms
proof (induction ps arbitrary: acc)
  case Nil
  then show ?case by simp
next
  case (Cons p ps)
  show ?case
  proof (cases "length (embedding p) = length q")
    case True
    then obtain s where s: "cosine_similarity q (embedding p) = Inr s"
      using cosine_similarity_match [of q "embedding p"] by auto
    from True Cons.prems have "\<exists>p\<in>set ps. length (embedding p) \<noteq> length q" by auto
    from Cons.IH [OF this] s show ?thesis
      by (simp add: subscript_page subscript_catalog_source_file np_array_reals bind_exn_def
            del: np_array.simps)
  next
    case False
    then have "cosine_similarity q (embedding p) = Inl ShapeError"
      using cosine_similarity_mismatch [of q "embedding p"] by auto
    then show ?thesis
      by (simp add: subscript_page np_array_reals bind_exn_def del: np_array.simps)
  qed
qed

lemma subscript_catalog_name: "subscript (json_of_catalog c) ''name'' = Inr (JStr (name c))"
  by (simp add: json_of_catalog_def)

lemma subscript_catalog_pages:
  "subscript (json_of_catalog c) ''pages'' = Inr (JArr (map json_of_page (pages c)))"
  by (simp add: json_of_catalog_def)

lemma scan_catalogs_ok:
  assumes "\<forall>c\<in>set cs. \<forall>p\<in>set (pages c). length (embedding p) = length q"
  shows "\<exists>rs. scan_catalogs q (map json_of_catalog cs) acc = Inr (acc @ rs)
              \<and> length rs = sum_list (map (\<lambda>c. length (pages c)) cs)"
  using assms
proof (induction cs arbitrary: acc)
  case Nil
  then show ?case by simp
next
  case (Cons c cs)
  from Cons.prems have "\<forall>p\<in>set (pages c). length (embedding p) = length q" by simp
  from scan_pages_ok [OF this, of c "JStr (name c)" acc] obtain r1 where
    r1: "scan_pages q (json_of_catalog c) (JStr (name c)) (map json_of_page (pages c)) acc = Inr (acc @ r1)"
    and l1: "length r1 = length (pages c)" by blast
  from Cons.prems have "\<forall>c\<in>set cs. \<forall>p\<in>set (pages c). length (embedding p) = length q" by simp
  from Cons.IH [OF this, of "acc @ r1"] obtain r2 where
    r2: "scan_catalogs q (map json_of_catalog cs) (acc @ r1) = Inr ((acc @ r1) @ r2)"
    and l2: "length r2 = sum_list (map (\<lambda>c. length (pages c)) cs)" by blast
  have "scan_catalogs q (map json_of_catalog (c # cs)) acc = Inr (acc @ (r1 @ r2))"
    using r1 r2 by (simp add: subscript_catalog_name subscript_catalog_pages bind_exn_def)
  with l1 l2 show ?case by (intro exI [of _ "r1 @ r2"]) simp
qed

lemma scan_catalogs_mismatch:
  assumes "\<exists>c\<in>set cs. \<exists>p\<in>set (pages c). length (embedding p) \<noteq> length q"
  shows "scan_catalogs q (map json_of_catalog cs) acc = Inl ShapeError"
  using assms
proof (induction cs arbitrary: acc)
  case Nil
  then show ?case by simp
next
  case (Cons c cs)
  show ?case
  proof (cases "\<exists>p\<in>set (pages c). length (embedding p) \<noteq> length q")
    case True
    from scan_pages_mismatch [OF this] show ?thesis
      by (simp add: subscript_catalog_name subscript_catalog_pages bind_exn_def)
  next
    case False
    then have "\<forall>p\<in>set (pages c). length (embedding p) = length q" by simp
    from scan_pages_ok [OF this, of c "JStr (name c)" acc] obtain r1 where
      r1: "scan_pages q (json_of_catalog c) (JStr (name c)) (map json_of_page (pages c)) acc = Inr (acc @ r1)"
      by blast
    from False Cons.prems have "\<exists>c\<in>set cs. \<exists>p\<in>set (pages c). length (embedding p) \<noteq> length q"
      by auto
    from Cons.IH [OF this] r1 show ?thesis
      by (simp add: subscript_catalog_name subscript_catalog_pages bind_exn_def)
  qed
qed

lemma calculate_similarities_database:
  "calculate_similarities q (json_of_database db) =
     scan_catalogs q (map json_of_catalog (catalogs db)) []"
  by (simp add: calculate_similarities_def json_of_database_def bind_exn_def)

lemma calculate_similarities_ok:
  assumes "\<forall>c\<in>set (catalogs db). \<forall>p\<in>set (pages c). length (embedding p) = length q"
  shows "\<exists>rs. calculate_similarities q (json_of_database db) = Inr rs
              \<and> length rs = total_pages db"
  using scan_catalogs_ok [OF assms, of "[]"]
  by (simp add: calculate_similarities_database total_pages_def)

lemma calculate_similarities_mismatch:
  assumes "\<exists>c\<in>set (catalogs db). \<exists>p\<in>set (pages c). length (embedding p) \<noteq> length q"
  shows "calculate_similarities q (json_of_database db) = Inl ShapeError"
  using scan_catalogs_mismatch [OF assms]
  by (simp add: calculate_similarities_database)

lemma length_slice_to: "0 \<le> k \<Longrightarrow> length (slice_to xs k) = min (nat k) (length xs)"
  by (simp add: slice_to_def)

lemma main_search_Parsed:
  "main_search (Parsed db) (Inr q) k =
     (case calculate_similarities q db of
        Inl e \<Rightarrow> Inl (Caught e)
      | Inr rs \<Rightarrow> Inr \<lparr>success = True, query_type = ''image'',
                       total_pages_searched = length rs,
                       results = slice_to (sort_reverse similarity rs) k\<rparr>)"
  by (simp add: main_search_def)

subsection \<open>Evaluation at concrete inputs\<close>

lemmas eval_search =
  main_search_def calculate_similarities_def bind_exn_def cosine_similarity_def np_dot_def
  np_norm_def np_div_def sort_reverse_def slice_to_def json_of_database_def
  json_of_catalog_def json_of_page_def total_pages_def

subsection \<open>Zero vectors\<close>




subsection \<open>Databases with pages, and dictionaries without some keys\<close>

lemma total_pages_pos:
  "0 < total_pages db \<Longrightarrow> \<exists>c\<in>set (catalogs db). \<exists>p. p \<in> set (pages c)"
proof -
  assume "0 < total_pages db"
  then have "\<exists>n\<in>set (map (\<lambda>c. length (pages c)) (catalogs db)). n \<noteq> 0"
    unfolding total_pages_def by (metis sum_list_eq_0_iff not_less_zero gr_implies_not0)
  then obtain c where "c \<in> set (catalogs db)" "pages c \<noteq> []" by auto
  then show ?thesis by (metis last_in_set)
qed

lemma map_of_filter_other:
  "k \<noteq> a \<Longrightarrow> k \<noteq> b \<Longrightarrow> map_of (filter (\<lambda>kv. fst kv \<noteq> a \<and> fst kv \<noteq> b) kvs) k = map_of kvs k"
  by (induction kvs) auto

subsection \<open>The ingestion loop\<close>

lemma image_filename_1: "image_filename (Suc 0) = ''page_001.jpg''"
  by code_simp

lemma image_filename_2: "image_filename (Suc (Suc 0)) = ''page_002.jpg''"
  by code_simp

lemmas eval_generate =
  generate_def process_document_def Let_def bind_exn_def basename_def path_join_def OUTPUT_DIR_def
  catalog_name_of_def after_first_dash_def demo_env_def demo_catalog_def
  image_filename_1 image_filename_2

lemma process_pages_numbers:
  "process_pages E dir n imgs acc = Inr ps \<Longrightarrow>
     map page_number ps = map page_number acc @ [n..<n + length imgs]"
proof (induction imgs arbitrary: n acc)
  case Nil
  then show ?case by simp
next
  case (Cons img imgs)
  from Cons.prems obtain emb where
    rec: "process_pages E dir (Suc n) imgs
            (acc @ [\<lparr>page_number = n, image_path = path_join dir (image_filename n),
                      embedding = emb\<rparr>]) = Inr ps"
    by (auto simp: Let_def bind_exn_def split: option.splits sum.splits)
  from Cons.IH [OF rec] show ?case by (simp add: upt_conv_Cons del: upt_Suc)
qed

lemma process_document_numbers:
  assumes "process_document E p = Inr c"
  shows "map page_number (pages c) = [1..<Suc (length (pages c))]"
proof -
  from assms obtain imgs ps where
    ps: "process_pages E (path_join OUTPUT_DIR (remove_pdf (basename p))) 1 imgs [] = Inr ps"
    and c: "pages c = ps"
    by (auto simp: process_document_def Let_def bind_exn_def split: sum.splits)
  from process_pages_numbers [OF ps] have m: "map page_number ps = [1..<1 + length imgs]" by simp
  then have "length ps = length imgs" by (metis length_map length_upt add_diff_cancel_left')
  with m c show ?thesis by simp
qed

lemma ingest_catalogs:
  assumes "\<forall>p\<in>set pdf_files. makedirs E (path_join OUTPUT_DIR (remove_pdf (basename p))) = None"
  shows "ingest E db pdf_files =
           Inr (db\<lparr>catalogs := catalogs db @
                  concat (map (\<lambda>p. case process_document E p of Inl e \<Rightarrow> [] | Inr c \<Rightarrow> [c]) pdf_files)\<rparr>)"
  using assms
proof (induction pdf_files arbitrary: db)
  case Nil
  then show ?case by simp
next
  case (Cons p rest)
  then show ?case by (cases "process_document E p") simp_all
qed

lemma ingest_sources:
  "ingest E db pdf_files = Inr db' \<Longrightarrow>
     set (catalogs db') \<subseteq> set (catalogs db) \<union> {c. \<exists>p\<in>set pdf_files. process_document E p = Inr c}"
proof (induction pdf_files arbitrary: db)
  case Nil
  then show ?case by auto
next
  case (Cons p rest)
  show ?case
  proof (cases "process_document E p")
    case (Inl e)
    with Cons.prems have "ingest E db rest = Inr db'"
      by (simp split: option.splits)
    from Cons.IH [OF this] show ?thesis by auto
  next
    case (Inr c)
    with Cons.prems have "ingest E (db\<lparr>catalogs := catalogs db @ [c]\<rparr>) rest = Inr db'"
      by (simp split: option.splits)
    from Cons.IH [OF this] Inr show ?thesis by auto
  qed
qed

lemma demo_run: "generate demo_env ''t'' demo_files = Inr demo_database"
  by (simp add: eval_generate demo_files_def demo_database_def)

lemma demo_makedirs:
  "makedirs demo_env d = None"
  by (simp add: demo_env_def)

subsection \<open>Writing a file\<close>

lemma dump_steps_open:
  "files path = Some s \<Longrightarrow>
     dump_steps n files path chunks = files(path \<mapsto> s @ concat (take n chunks))"
proof (induction chunks arbitrary: n files s)
  case Nil
  then show ?case by (cases n) (simp_all add: fun_upd_idem)
next
  case (Cons chunk rest)
  show ?case
  proof (cases n)
    case 0
    with Cons.prems show ?thesis by (simp add: fun_upd_idem)
  next
    case (Suc m)
    have wc: "write_chunk files path chunk = files(path \<mapsto> s @ chunk)"
      using Cons.prems by (simp add: write_chunk_def)
    have "dump_steps m (files(path \<mapsto> s @ chunk)) path rest =
            (files(path \<mapsto> s @ chunk))(path \<mapsto> (s @ chunk) @ concat (take m rest))"
      by (rule Cons.IH) simp
    with Suc wc show ?thesis by simp
  qed
qed

section \<open>Scoring\<close>




section \<open>Ranking\<close>

text \<open>
  Claim C1, as the code has it. Let \<open>rs\<close> be the list of results in the order the two
  loops produce them (catalogs in database order, pages in stored order), and let no
  score be \<open>nan\<close>. Then the run returns a prefix \<open>slice_to ranked top_k\<close> of a list
  \<open>ranked\<close> that is a rearrangement of \<open>rs\<close>, in which the score of every entry is
  greater than or equal to the score of every later entry (descending order), and in
  which the entries of any one score stand in the same order as in \<open>rs\<close>. Ties are
  therefore broken by position in the database, not by catalog name and page number.
  The run is a function of the database, the query and \<open>top_k\<close>, so repeating it gives
  the same output.
\<close>

theorem rank_descending_stable:
  assumes "calculate_similarities q db = Inr rs"
    and "\<forall>r\<in>set rs. similarity r \<noteq> NaN"
  shows "\<exists>ranked.
           main_search (Parsed db) (Inr q) k =
             Inr \<lparr>success = True, query_type = ''image'', total_pages_searched = length rs,
                  results = slice_to ranked k\<rparr>
           \<and> mset ranked = mset rs
           \<and> sorted_wrt (\<lambda>a b. fl_less (similarity b) (similarity a) \<or> similarity a = similarity b)
                 ranked
           \<and> (\<forall>s. filter (\<lambda>r. similarity r = s) ranked = filter (\<lambda>r. similarity r = s) rs)"
proof (intro exI [of _ "sort_reverse similarity rs"] conjI allI)
  show "main_search (Parsed db) (Inr q) k =
          Inr \<lparr>success = True, query_type = ''image'', total_pages_searched = length rs,
               results = slice_to (sort_reverse similarity rs) k\<rparr>"
    using assms(1) by (simp add: main_search_Parsed)
  show "mset (sort_reverse similarity rs) = mset rs"
    by (rule mset_sort_reverse)
  show "sorted_wrt (\<lambda>a b. fl_less (similarity b) (similarity a) \<or> similarity a = similarity b)
          (sort_reverse similarity rs)"
    using assms(2) by (rule descending_sort_reverse)
  show "filter (\<lambda>r. similarity r = s) (sort_reverse similarity rs) = filter (\<lambda>r. similarity r = s) rs" for s
    using assms(2) by (rule filter_sort_reverse)
qed

text \<open>
  The theorem at the database with one catalog of three pages embedded as the unit
  vectors, the query \<open>(1, 0, 0)\<close> and \<open>top_k = 2\<close>: page 1 comes first with score 1,
  then page 2, which ties with page 3 at score 0 and precedes it in the database.
\<close>

theorem rank_descending_stable_witness:
  "calculate_similarities [1, 0, 0] (json_of_database db_spring) = Inr spring_results \<and>
   list_all (\<lambda>r. similarity r \<noteq> NaN) spring_results \<and>
   main_search (Parsed (json_of_database db_spring)) (Inr [1, 0, 0]) 2 =
     Inr \<lparr>success = True, query_type = ''image'', total_pages_searched = 3,
          results = take 2 spring_results\<rparr>"
proof -
  have h1: "calculate_similarities [1, 0, 0] (json_of_database db_spring) = Inr spring_results"
    by (simp add: eval_search db_spring_def spring_results_def)
  have h2: "\<forall>r\<in>set spring_results. similarity r \<noteq> NaN"
    by (simp add: spring_results_def)
  have run: "main_search (Parsed (json_of_database db_spring)) (Inr [1, 0, 0]) 2 =
          Inr \<lparr>success = True, query_type = ''image'', total_pages_searched = 3,
               results = take 2 spring_results\<rparr>"
    by (simp add: eval_search db_spring_def spring_results_def)
  from rank_descending_stable [OF h1 h2, of 2]
  have "\<exists>ranked. mset ranked = mset spring_results \<and>
          results \<lparr>success = True, query_type = ''image'', total_pages_searched = 3,
                   results = take 2 spring_results\<rparr> = slice_to ranked 2"
    unfolding run by auto
  with h1 h2 run show ?thesis by (simp add: list_all_iff)
qed

text \<open>
  The wording of C1 fails where two catalogs are stored in the order \<open>B\<close>, \<open>A\<close> and
  their first pages score the same: the page of \<open>B\<close> is returned first, although
  \<open>(A, 1)\<close> is smaller than \<open>(B, 1)\<close>. Where a stored vector is zero its score is
  \<open>nan\<close>, which is not greater than or equal to any score: with such a page stored
  first, the scores of the returned sequence are \<open>nan, 1\<close>, which is not descending.
\<close>

theorem rank_tie_order_counterexample:
  "main_search (Parsed (json_of_database db_ties)) (Inr [1, 0]) 5 =
     Inr \<lparr>success = True, query_type = ''image'', total_pages_searched = 2,
          results =
            [\<lparr>r_catalog = JStr ''B'', r_page_number = JInt 1, r_image_path = JStr ''b1.jpg'',
               similarity = Fin 1, r_source_file = JStr ''1-B.pdf''\<rparr>,
             \<lparr>r_catalog = JStr ''A'', r_page_number = JInt 1, r_image_path = JStr ''a1.jpg'',
               similarity = Fin 1, r_source_file = JStr ''2-A.pdf''\<rparr>]\<rparr>
   \<and> (''A'', 1::nat) < (''B'', 1::nat)
   \<and> map similarity
         (results (projr (main_search (Parsed (json_of_database db_zero_first)) (Inr [1, 0]) 5))) =
       [NaN, Fin 1]
   \<and> \<not> (fl_less (Fin 1) NaN \<or> NaN = Fin 1)"
  by (simp add: eval_search db_ties_def db_zero_first_def)

text \<open>
  Claim C8. When every stored vector has the length of the query and \<open>top_k\<close> is
  positive, the run succeeds and returns \<open>min top_k N\<close> results, \<open>N\<close> being the number
  of pages in the database; it also reports \<open>N\<close> as the number of pages searched. A
  database without pages satisfies the hypothesis for every query and yields the empty
  result list.
\<close>

theorem rank_length:
  assumes "\<forall>c\<in>set (catalogs db). \<forall>p\<in>set (pages c). length (embedding p) = length q"
    and "0 < top_k"
  shows "\<exists>out. main_search (Parsed (json_of_database db)) (Inr q) top_k = Inr out
               \<and> length (results out) = min (nat top_k) (total_pages db)
               \<and> total_pages_searched out = total_pages db"
proof -
  from calculate_similarities_ok [OF assms(1)] obtain rs where
    rs: "calculate_similarities q (json_of_database db) = Inr rs" and len: "length rs = total_pages db"
    by blast
  from assms(2) have "length (slice_to (sort_reverse similarity rs) top_k) = min (nat top_k) (length rs)"
    by (simp add: length_slice_to length_sort_reverse)
  with rs len show ?thesis by (simp add: main_search_Parsed)
qed

text \<open>
  The theorem at the three-page database with \<open>top_k = 5\<close>, which returns all three
  pages, and at the database without catalogs.
\<close>

theorem rank_length_witness:
  "list_all (\<lambda>c. list_all (\<lambda>p. length (embedding p) = length [1, 0, 0::real]) (pages c)) (catalogs db_spring) \<and>
   (0::int) < 5 \<and> total_pages db_spring = 3 \<and>
   length (results (projr (main_search (Parsed (json_of_database db_spring)) (Inr [1, 0, 0]) 5))) = 3 \<and>
   total_pages (db_spring\<lparr>catalogs := []\<rparr>) = 0 \<and>
   main_search (Parsed (json_of_database (db_spring\<lparr>catalogs := []\<rparr>))) (Inr [1, 0]) 5 =
     Inr \<lparr>success = True, query_type = ''image'', total_pages_searched = 0, results = []\<rparr>"
proof -
  have h1: "\<forall>c\<in>set (catalogs db_spring). \<forall>p\<in>set (pages c). length (embedding p) = length [1, 0, 0::real]"
    by (simp add: db_spring_def)
  have h2: "(0::int) < 5" by simp
  have t: "total_pages db_spring = 3" by (simp add: db_spring_def total_pages_def)
  from rank_length [OF h1 h2] t
  have a: "length (results (projr (main_search (Parsed (json_of_database db_spring)) (Inr [1, 0, 0]) 5))) = 3"
    by auto
  have h1': "\<forall>c\<in>set (catalogs (db_spring\<lparr>catalogs := []\<rparr>)). \<forall>p\<in>set (pages c). length (embedding p) = length [1, 0::real]"
    by simp
  have b: "main_search (Parsed (json_of_database (db_spring\<lparr>catalogs := []\<rparr>))) (Inr [1, 0]) 5 =
     Inr \<lparr>success = True, query_type = ''image'', total_pages_searched = 0, results = []\<rparr>"
    by (simp add: eval_search)
  from h1 t a b show ?thesis by (simp add: list_all_iff total_pages_def)
qed

section \<open>Failures of the search run\<close>

text \<open>
  Claim C5. If the database has at least one page, every stored vector has length \<open>D\<close>
  and the query has a different length, the run fails: numpy rejects the inner product
  at the first page, and the handler of line 106 reports the exception as the error
  result of the run.
\<close>

theorem rank_dimension_mismatch:
  assumes "\<forall>c\<in>set (catalogs db). \<forall>p\<in>set (pages c). length (embedding p) = D"
    and "0 < total_pages db"
    and "length q \<noteq> D"
  shows "main_search (Parsed (json_of_database db)) (Inr q) top_k = Inl (Caught ShapeError)"
proof -
  from total_pages_pos [OF assms(2)] assms(1,3)
  have "\<exists>c\<in>set (catalogs db). \<exists>p\<in>set (pages c). length (embedding p) \<noteq> length q"
    by fastforce
  from calculate_similarities_mismatch [OF this] show ?thesis
    by (simp add: main_search_Parsed)
qed

text \<open>The theorem at the three-page database and a query of length 2.\<close>

theorem rank_dimension_mismatch_witness:
  "list_all (\<lambda>c. list_all (\<lambda>p. length (embedding p) = 3) (pages c)) (catalogs db_spring) \<and>
   0 < total_pages db_spring \<and> length [1, 0::real] \<noteq> 3 \<and>
   main_search (Parsed (json_of_database db_spring)) (Inr [1, 0]) 5 = Inl (Caught ShapeError)"
proof -
  have h1: "\<forall>c\<in>set (catalogs db_spring). \<forall>p\<in>set (pages c). length (embedding p) = 3"
    by (simp add: db_spring_def)
  have h2: "0 < total_pages db_spring"
    by (simp add: db_spring_def total_pages_def)
  have h3: "length [1, 0::real] \<noteq> 3" by simp
  from rank_dimension_mismatch [OF h1 h2 h3, of 5] h1 h2 show ?thesis
    by (simp add: list_all_iff)
qed

text \<open>
  Claim C7. The run ends with the not-found error exactly when there is no file at the
  database path; in particular a file that exists but does not parse ends with a
  different error.
\<close>

theorem missing_database_not_found:
  "main_search Absent query top_k = Inl NotFound \<and>
   (main_search art query top_k = Inl NotFound) = (art = Absent)"
  by (cases art; cases query) (simp_all add: main_search_def split: sum.splits)

text \<open>The theorem at a file that does not parse.\<close>

theorem missing_database_not_found_witness:
  "main_search Absent (Inr [1, 0]) 5 = Inl NotFound \<and>
   main_search Unparsable (Inr [1, 0]) 5 = Inl (Caught JSONDecodeError) \<and>
   main_search Unparsable (Inr [1, 0]) 5 \<noteq> Inl NotFound"
  using missing_database_not_found [of "Inr [1, 0]" 5 Unparsable]
  by (simp add: main_search_def)

text \<open>
  Claim C6, as the code has it. The search run fails with a caught exception, never
  with the not-found error, when the file does not parse, when the parsed object has no
  \<open>catalogs\<close> key or has a null, a boolean or a number there, and when two stored page
  vectors differ in length (numpy then rejects the inner product with the query at one
  of them). The keys \<open>version\<close> and \<open>model\<close> are
  never read: removing them from the object does not change the outcome.
\<close>

theorem load_failures:
  "main_search Unparsable (Inr q) top_k = Inl (Caught JSONDecodeError)
   \<and> (map_of kvs ''catalogs'' = None \<longrightarrow>
        main_search (Parsed (JObj kvs)) (Inr q) top_k = Inl (Caught (KeyError ''catalogs'')))
   \<and> (map_of kvs ''catalogs'' = Some v \<and> (v = JNull \<or> v = JBool b \<or> v = JInt i \<or> v = JReal r) \<longrightarrow>
        main_search (Parsed (JObj kvs)) (Inr q) top_k = Inl (Caught TypeError))
   \<and> ((\<exists>c\<in>set (catalogs db). \<exists>p\<in>set (pages c). \<exists>c'\<in>set (catalogs db). \<exists>p'\<in>set (pages c').
          length (embedding p) \<noteq> length (embedding p')) \<longrightarrow>
        main_search (Parsed (json_of_database db)) (Inr q) top_k = Inl (Caught ShapeError))
   \<and> main_search (Parsed (JObj (filter (\<lambda>kv. fst kv \<noteq> ''version'' \<and> fst kv \<noteq> ''model'') kvs)))
        (Inr q) top_k
      = main_search (Parsed (JObj kvs)) (Inr q) top_k"
proof (intro conjI impI)
  show "main_search Unparsable (Inr q) top_k = Inl (Caught JSONDecodeError)"
    by (simp add: main_search_def)
  show "main_search (Parsed (JObj kvs)) (Inr q) top_k = Inl (Caught (KeyError ''catalogs''))"
    if "map_of kvs ''catalogs'' = None"
    using that by (simp add: main_search_Parsed calculate_similarities_def bind_exn_def)
  show "main_search (Parsed (JObj kvs)) (Inr q) top_k = Inl (Caught TypeError)"
    if "map_of kvs ''catalogs'' = Some v \<and> (v = JNull \<or> v = JBool b \<or> v = JInt i \<or> v = JReal r)"
    using that by (auto simp: main_search_Parsed calculate_similarities_def bind_exn_def)
  show "main_search (Parsed (json_of_database db)) (Inr q) top_k = Inl (Caught ShapeError)"
    if "\<exists>c\<in>set (catalogs db). \<exists>p\<in>set (pages c). \<exists>c'\<in>set (catalogs db). \<exists>p'\<in>set (pages c').
          length (embedding p) \<noteq> length (embedding p')"
  proof -
    from that have "\<exists>c\<in>set (catalogs db). \<exists>p\<in>set (pages c). length (embedding p) \<noteq> length q"
      by metis
    from calculate_similarities_mismatch [OF this] show ?thesis
      by (simp add: main_search_Parsed)
  qed
  have "map_of (filter (\<lambda>kv. fst kv \<noteq> ''version'' \<and> fst kv \<noteq> ''model'') kvs) ''catalogs''
          = map_of kvs ''catalogs''"
    by (rule map_of_filter_other) simp_all
  then show "main_search (Parsed (JObj (filter (\<lambda>kv. fst kv \<noteq> ''version'' \<and> fst kv \<noteq> ''model'') kvs)))
        (Inr q) top_k = main_search (Parsed (JObj kvs)) (Inr q) top_k"
    by (simp add: main_search_Parsed calculate_similarities_def bind_exn_def)
qed

text \<open>
  The theorem at the empty object and at a database whose two pages have vectors of
  length 2 and 3: the latter fails for a query of either length.
\<close>

theorem load_failures_witness:
  "map_of ([]::(string \<times> json) list) ''catalogs'' = None \<and>
   main_search (Parsed (JObj [])) (Inr [1, 0]) 5 = Inl (Caught (KeyError ''catalogs'')) \<and>
   map_of [(''catalogs'', JInt 3)] ''catalogs'' = Some (JInt 3) \<and>
   main_search (Parsed (JObj [(''catalogs'', JInt 3)])) (Inr [1, 0]) 5 = Inl (Caught TypeError) \<and>
   map (\<lambda>p. length (embedding p)) (concat (map pages (catalogs db_mixed))) = [2, 3] \<and>
   main_search (Parsed (json_of_database db_mixed)) (Inr [1, 0]) 5 = Inl (Caught ShapeError) \<and>
   main_search (Parsed (json_of_database db_mixed)) (Inr [1, 0, 0]) 5 = Inl (Caught ShapeError)"
proof -
  have h1: "map_of ([]::(string \<times> json) list) ''catalogs'' = None" by simp
  have h2: "\<exists>c\<in>set (catalogs db_mixed). \<exists>p\<in>set (pages c). \<exists>c'\<in>set (catalogs db_mixed). \<exists>p'\<in>set (pages c').
          length (embedding p) \<noteq> length (embedding p')"
    by (auto simp: db_mixed_def)
  have h3: "map (\<lambda>p. length (embedding p)) (concat (map pages (catalogs db_mixed))) = [2, 3]"
    by (simp add: db_mixed_def)
  have h4: "map_of [(''catalogs'', JInt 3)] ''catalogs'' = Some (JInt 3)" by simp
  from load_failures [where q = "[1, 0]" and top_k = 5 and kvs = "[]" and db = db_mixed] h1 h2
  have a: "main_search (Parsed (JObj [])) (Inr [1, 0]) 5 = Inl (Caught (KeyError ''catalogs''))"
    and b: "main_search (Parsed (json_of_database db_mixed)) (Inr [1, 0]) 5 = Inl (Caught ShapeError)"
    by blast+
  from load_failures [where q = "[1, 0, 0]" and top_k = 5 and db = db_mixed] h2
  have c: "main_search (Parsed (json_of_database db_mixed)) (Inr [1, 0, 0]) 5 = Inl (Caught ShapeError)"
    by blast
  from load_failures [where q = "[1, 0]" and top_k = 5 and kvs = "[(''catalogs'', JInt 3)]"
      and v = "JInt 3" and i = 3] h4
  have d: "main_search (Parsed (JObj [(''catalogs'', JInt 3)])) (Inr [1, 0]) 5 = Inl (Caught TypeError)"
    by blast
  from h1 h3 h4 a b c d show ?thesis by simp
qed

text \<open>
  The wording of C6 fails at an object that has the key \<open>catalogs\<close> but neither
  \<open>version\<close> nor \<open>model\<close>: the run succeeds and returns the best match.
\<close>

theorem load_missing_version_model_counterexample:
  "map_of [(''catalogs'', JArr (map json_of_catalog (catalogs db_spring)))] ''version'' = None \<and>
   map_of [(''catalogs'', JArr (map json_of_catalog (catalogs db_spring)))] ''model'' = None \<and>
   main_search (Parsed (JObj [(''catalogs'', JArr (map json_of_catalog (catalogs db_spring)))]))
       (Inr [1, 0, 0]) 1 =
     Inr \<lparr>success = True, query_type = ''image'', total_pages_searched = 3,
          results = take 1 spring_results\<rparr>"
  by (simp add: eval_search db_spring_def spring_results_def)

section \<open>Ingestion\<close>

text \<open>
  Claim C9. Provided the image directory of every document can be created, the run
  ends with a database that holds one catalog for each document whose rasterisation,
  image writing and embedding all succeeded, in the order of the documents; a document
  for which one of them raised contributes nothing, and the documents after it are
  still processed.
\<close>

theorem ingestion_skips_failures:
  assumes "\<forall>p\<in>set pdf_files. makedirs E (path_join OUTPUT_DIR (remove_pdf (basename p))) = None"
  shows "generate E now pdf_files =
           Inr \<lparr>version = ''1.0'', model = ''clip-ViT-B-32'', created = now,
                catalogs = concat (map (\<lambda>p. case process_document E p of Inl e \<Rightarrow> [] | Inr c \<Rightarrow> [c])
                                     pdf_files)\<rparr>"
  using ingest_catalogs [OF assms] by (simp add: generate_def)

text \<open>
  The theorem at four documents, of which the second cannot be rasterised and the third
  has a page that cannot be embedded: the database holds the first and the fourth.
\<close>

theorem ingestion_skips_failures_witness:
  "list_all (\<lambda>p. makedirs demo_env (path_join OUTPUT_DIR (remove_pdf (basename p))) = None) demo_files \<and>
   process_document demo_env ''/kb/3-broken.pdf'' = Inl (External ''rasterize'') \<and>
   process_document demo_env ''/kb/4-badpage.pdf'' = Inl (External ''encode'') \<and>
   generate demo_env ''t'' demo_files = Inr demo_database \<and>
   map name (catalogs demo_database) = [''foo'', ''bar'']"
proof -
  have h: "\<forall>p\<in>set demo_files. makedirs demo_env (path_join OUTPUT_DIR (remove_pdf (basename p))) = None"
    by (simp add: demo_makedirs)
  have f1: "process_document demo_env ''/kb/3-broken.pdf'' = Inl (External ''rasterize'')"
    by (simp add: eval_generate)
  have f2: "process_document demo_env ''/kb/4-badpage.pdf'' = Inl (External ''encode'')"
    by (simp add: eval_generate)
  have n: "map name (catalogs demo_database) = [''foo'', ''bar'']"
    by (simp add: demo_database_def demo_catalog_def)
  from ingestion_skips_failures [OF h, of "''t''"] demo_run h f1 f2 n show ?thesis
    by (simp add: list_all_iff)
qed

text \<open>
  Claim C10. In every catalog of a generated database the stored pages carry the numbers
  \<open>1, 2, \<dots>, n\<close> in this order, \<open>n\<close> being the number of pages of the catalog.
\<close>

theorem generated_pages_numbered:
  assumes "generate E now pdf_files = Inr db"
  shows "\<forall>c\<in>set (catalogs db). map page_number (pages c) = [1..<Suc (length (pages c))]"
proof
  fix c assume "c \<in> set (catalogs db)"
  with ingest_sources [OF assms [unfolded generate_def]]
  obtain p where "process_document E p = Inr c" by auto
  then show "map page_number (pages c) = [1..<Suc (length (pages c))]"
    by (rule process_document_numbers)
qed

text \<open>The theorem at the generated two-catalog database, whose catalogs have two pages each.\<close>

theorem generated_pages_numbered_witness:
  "generate demo_env ''t'' demo_files = Inr demo_database \<and>
   list_all (\<lambda>c. map page_number (pages c) = [1, 2]) (catalogs demo_database)"
proof -
  have u: "[1..<Suc 2] = [1, 2::nat]" by code_simp
  have "map page_number (pages c) = [1, 2]" if c: "c \<in> set (catalogs demo_database)" for c
  proof -
    from c have l: "length (pages c) = 2"
      by (auto simp: demo_database_def demo_catalog_def)
    from generated_pages_numbered [OF demo_run] c
    have "map page_number (pages c) = [1..<Suc (length (pages c))]" by blast
    also have "\<dots> = [1..<Suc 2]" by (simp only: l)
    also note u
    finally show ?thesis .
  qed
  with demo_run show ?thesis by (simp add: list_all_iff)
qed

text \<open>
  Claim C3, as the code has it. Appending the catalog of a processed document never
  fails on its name and knows no replace mode: the record is added at the end of the
  catalog sequence whatever names are already there, so the number of catalogs that
  carry its name grows by one.
\<close>

theorem append_without_duplicate_check:
  assumes "process_document E p = Inr c"
    and "makedirs E (path_join OUTPUT_DIR (remove_pdf (basename p))) = None"
  shows "ingest E db [p] = Inr (db\<lparr>catalogs := catalogs db @ [c]\<rparr>)
         \<and> length (filter (\<lambda>x. name x = name c) (catalogs db @ [c]))
             = Suc (length (filter (\<lambda>x. name x = name c) (catalogs db)))"
  using assms by simp

text \<open>
  The theorem at a database that already holds a catalog named \<open>foo\<close> and a second
  document from which the same name is derived.
\<close>

theorem append_without_duplicate_check_witness:
  "process_document demo_env ''/kb/2-foo.pdf'' =
     Inr (demo_catalog ''foo'' ''2-foo.pdf'' ''/opt/flow-builder/data/catalog-images/2-foo'') \<and>
   makedirs demo_env (path_join OUTPUT_DIR (remove_pdf (basename ''/kb/2-foo.pdf''))) = None \<and>
   map_sum id (\<lambda>db. map name (catalogs db)) (ingest demo_env demo_database [''/kb/2-foo.pdf'']) =
     Inr [''foo'', ''bar'', ''foo'']"
proof -
  have h1: "process_document demo_env ''/kb/2-foo.pdf'' =
     Inr (demo_catalog ''foo'' ''2-foo.pdf'' ''/opt/flow-builder/data/catalog-images/2-foo'')"
    by (simp add: eval_generate)
  have h2: "makedirs demo_env (path_join OUTPUT_DIR (remove_pdf (basename ''/kb/2-foo.pdf''))) = None"
    by (rule demo_makedirs)
  from append_without_duplicate_check [OF h1 h2, of demo_database]
  have "map_sum id (\<lambda>db. map name (catalogs db)) (ingest demo_env demo_database [''/kb/2-foo.pdf'']) =
     Inr [''foo'', ''bar'', ''foo'']"
    by (simp add: demo_database_def demo_catalog_def)
  with h1 h2 show ?thesis by simp
qed

text \<open>
  The wording of C3 fails at two documents \<open>1-foo.pdf\<close> and \<open>2-foo.pdf\<close>: both yield the
  catalog name \<open>foo\<close>, the second append succeeds without any replace request, and the
  database ends up with two catalogs of that name.
\<close>

theorem append_duplicate_counterexample:
  "generate demo_env ''t'' [''/kb/1-foo.pdf'', ''/kb/2-foo.pdf''] =
     Inr \<lparr>version = ''1.0'', model = ''clip-ViT-B-32'', created = ''t'',
          catalogs = [demo_catalog ''foo'' ''1-foo.pdf'' ''/opt/flow-builder/data/catalog-images/1-foo'',
                      demo_catalog ''foo'' ''2-foo.pdf'' ''/opt/flow-builder/data/catalog-images/2-foo'']\<rparr>"
  by (simp add: eval_generate)

section \<open>Saving\<close>

text \<open>
  Claim C4, as the code has it. The save opens the destination itself for writing and
  writes the serialisation into it piece by piece: once the file is open, the
  destination holds the pieces written so far, that is a prefix of the serialisation,
  and no other path is touched; after the last write it holds the whole serialisation.
  There is no temporary file and no rename.
\<close>

theorem save_writes_in_place:
  "save_steps (Suc n) files path chunks = files(path \<mapsto> concat (take n chunks))
   \<and> save files path chunks = files(path \<mapsto> concat chunks)"
proof -
  have "open_w files path path = Some []" by (simp add: open_w_def)
  then have "dump_steps m (open_w files path) path chunks = files(path \<mapsto> concat (take m chunks))" for m
    using dump_steps_open [of "open_w files path" path "[]" m chunks] by (simp add: open_w_def)
  then show ?thesis by (simp add: save_def save_steps_def)
qed

text \<open>
  The wording of C4 fails for a destination that holds an earlier database: stopped
  right after the file is opened, the save leaves an empty file there, and stopped after
  the first write it leaves the first piece only; neither is the earlier content nor the
  whole new serialisation.
\<close>

theorem save_not_atomic_counterexample:
  "save_steps 1 [EMBEDDINGS_FILE \<mapsto> ''old''] EMBEDDINGS_FILE [''{'', ''}''] EMBEDDINGS_FILE = Some '''' \<and>
   save_steps 2 [EMBEDDINGS_FILE \<mapsto> ''old''] EMBEDDINGS_FILE [''{'', ''}''] EMBEDDINGS_FILE = Some ''{'' \<and>
   save [EMBEDDINGS_FILE \<mapsto> ''old''] EMBEDDINGS_FILE [''{'', ''}''] EMBEDDINGS_FILE = Some ''{}''"
  by (simp add: save_def save_steps_def open_w_def write_chunk_def numeral_2_eq_2)

end
